theory Spec2Isabelle
  imports Complex_Main
begin

section \<open>Vertical interpolation of cdutil (cdutil/vertical.py)\<close>

text \<open>
  The two entry points \<open>linearInterpolation\<close> and \<open>logLinearInterpolation\<close> of
  cdutil/vertical.py remap a field \<open>A\<close>, given on the levels of a coordinate array
  \<open>Idx\<close> (\<open>P\<close> in the second function), onto a list of target levels.

  Conventions of the embedding.
  \<^item> Numbers are real numbers: the arithmetic of the source is modelled exactly, not in
    floating point.
  \<^item> A cell of a masked array (MV2, numpy.ma) is a \<open>real option\<close>: \<open>None\<close> is a
    masked cell, \<open>Some v\<close> a valid one. A cell of a masked boolean array is a
    \<open>bool option\<close>.
  \<^item> The arrays are taken after the reordering of lines 93-95 (208-210), vertical axis
    first, with the remaining dimensions flattened: \<open>A\<close> and \<open>Idx\<close> are lists of level
    slices, a slice is a list of cells, one per column.
  \<^item> Elementwise operations of two or three arrays follow numpy's broadcasting on one
    dimension: equal lengths combine cell by cell, a length-1 array is stretched, any
    other combination raises a shape error.
  \<^item> An exception of the source is a value \<open>Inl e\<close>.
  \<^item> The progress bar (\<open>status\<close>), the units, the identifier, the attributes copied at
    the end of the functions, the assignment of the list of axes (lines 160-161) and the
    final reordering are not modelled: the result is the array of the values and the new
    vertical axis.
\<close>

subsection \<open>Errors\<close>

datatype error = IndexError | ValueError

definition bind_err :: "error + 'a \<Rightarrow> ('a \<Rightarrow> error + 'b) \<Rightarrow> error + 'b" where
  "bind_err r f = (case r of Inl e \<Rightarrow> Inl e | Inr v \<Rightarrow> f v)"

subsection \<open>Cells of masked arrays\<close>

type_synonym cell = "real option"
type_synonym bcell = "bool option"
type_synonym marray = "cell list"
type_synonym barray = "bcell list"

text \<open>Comparison of a cell with a scalar: masked where the cell is masked.\<close>

definition c_greater_equal :: "cell \<Rightarrow> real \<Rightarrow> bcell" where
  "c_greater_equal x v = (case x of None \<Rightarrow> None | Some a \<Rightarrow> Some (a \<ge> v))"

definition c_less_equal :: "cell \<Rightarrow> real \<Rightarrow> bcell" where
  "c_less_equal x v = (case x of None \<Rightarrow> None | Some a \<Rightarrow> Some (a \<le> v))"

definition c_equal :: "cell \<Rightarrow> real \<Rightarrow> bcell" where
  "c_equal x v = (case x of None \<Rightarrow> None | Some a \<Rightarrow> Some (a = v))"

text \<open>A binary operation is masked where either operand is.\<close>

definition c_logical_and :: "bcell \<Rightarrow> bcell \<Rightarrow> bcell" where
  "c_logical_and a b =
     (case a of None \<Rightarrow> None
      | Some p \<Rightarrow> (case b of None \<Rightarrow> None | Some q \<Rightarrow> Some (p \<and> q)))"

definition c_sub :: "cell \<Rightarrow> cell \<Rightarrow> cell" where
  "c_sub x y =
     (case x of None \<Rightarrow> None
      | Some a \<Rightarrow> (case y of None \<Rightarrow> None | Some b \<Rightarrow> Some (a - b)))"

definition c_add :: "cell \<Rightarrow> cell \<Rightarrow> cell" where
  "c_add x y =
     (case x of None \<Rightarrow> None
      | Some a \<Rightarrow> (case y of None \<Rightarrow> None | Some b \<Rightarrow> Some (a + b)))"

definition c_mul :: "cell \<Rightarrow> cell \<Rightarrow> cell" where
  "c_mul x y =
     (case x of None \<Rightarrow> None
      | Some a \<Rightarrow> (case y of None \<Rightarrow> None | Some b \<Rightarrow> Some (a * b)))"

text \<open>Division of masked arrays masks the cells whose divisor is zero; it does not raise.\<close>

definition c_div :: "cell \<Rightarrow> cell \<Rightarrow> cell" where
  "c_div x y =
     (case x of None \<Rightarrow> None
      | Some a \<Rightarrow> (case y of None \<Rightarrow> None
                   | Some b \<Rightarrow> if b = 0 then None else Some (a / b)))"

text \<open>The logarithm of masked arrays masks the cells that are not positive.\<close>

definition c_log :: "cell \<Rightarrow> cell" where
  "c_log x = (case x of None \<Rightarrow> None | Some a \<Rightarrow> if a \<le> 0 then None else Some (ln a))"

text \<open>
  \<open>where(c, x, y)\<close>: \<open>x\<close> where the condition is true, \<open>y\<close> where it is false, and a
  masked cell where the condition is masked.
\<close>

definition c_where :: "bcell \<Rightarrow> cell \<Rightarrow> cell \<Rightarrow> cell" where
  "c_where c x y = (case c of None \<Rightarrow> None | Some p \<Rightarrow> if p then x else y)"

text \<open>\<open>masked_where(c, x)\<close>: \<open>x\<close>, masked where the condition is true or masked.\<close>

definition c_masked_where :: "bcell \<Rightarrow> cell \<Rightarrow> cell" where
  "c_masked_where c x = (case c of None \<Rightarrow> None | Some p \<Rightarrow> if p then None else x)"

definition c_masked_equal :: "cell \<Rightarrow> real \<Rightarrow> cell" where
  "c_masked_equal x v = c_masked_where (c_equal x v) x"

subsection \<open>Arrays and broadcasting\<close>

definition bshape :: "nat \<Rightarrow> nat \<Rightarrow> error + nat" where
  "bshape m n =
     (if m = n then Inr m
      else if m = 1 then Inr n
      else if n = 1 then Inr m
      else Inl ValueError)"

definition bcast :: "nat \<Rightarrow> 'a list \<Rightarrow> 'a list" where
  "bcast n xs = (if length xs = n then xs else replicate n (hd xs))"

definition binop :: "('a \<Rightarrow> 'b \<Rightarrow> 'c) \<Rightarrow> 'a list \<Rightarrow> 'b list \<Rightarrow> error + 'c list" where
  "binop f xs ys =
     bind_err (bshape (length xs) (length ys))
       (\<lambda>n. Inr (map2 f (bcast n xs) (bcast n ys)))"

definition MV2_greater_equal :: "marray \<Rightarrow> real \<Rightarrow> barray" where
  "MV2_greater_equal xs v = map (\<lambda>x. c_greater_equal x v) xs"

definition MV2_less_equal :: "marray \<Rightarrow> real \<Rightarrow> barray" where
  "MV2_less_equal xs v = map (\<lambda>x. c_less_equal x v) xs"

definition MV2_equal :: "marray \<Rightarrow> real \<Rightarrow> barray" where
  "MV2_equal xs v = map (\<lambda>x. c_equal x v) xs"

definition MV2_masked_equal :: "marray \<Rightarrow> real \<Rightarrow> marray" where
  "MV2_masked_equal xs v = map (\<lambda>x. c_masked_equal x v) xs"

definition MV2_logical_and :: "barray \<Rightarrow> barray \<Rightarrow> error + barray" where
  "MV2_logical_and = binop c_logical_and"

definition MV2_where :: "barray \<Rightarrow> marray \<Rightarrow> marray \<Rightarrow> error + marray" where
  "MV2_where c x y =
     bind_err (bshape (length c) (length x)) (\<lambda>m.
     bind_err (bshape m (length y)) (\<lambda>n.
       Inr (map (\<lambda>(ci, xi, yi). c_where ci xi yi)
              (zip (bcast n c) (zip (bcast n x) (bcast n y))))))"

text \<open>\<open>masked_where\<close> raises when condition and array differ in shape.\<close>

definition MV2_masked_where :: "barray \<Rightarrow> marray \<Rightarrow> error + marray" where
  "MV2_masked_where c x =
     (if length c = length x then Inr (map2 c_masked_where c x) else Inl IndexError)"

definition MV2_log :: "marray \<Rightarrow> marray" where
  "MV2_log xs = map c_log xs"

definition getitem :: "'a list \<Rightarrow> nat \<Rightarrow> error + 'a" where
  "getitem xs i = (if i < length xs then Inr (xs ! i) else Inl IndexError)"

text \<open>
  \<open>t[ilev] = tl\<close>: the slice has \<open>R\<close> cells; a value of another length is stretched
  when it has one cell and refused otherwise.
\<close>

definition setitem :: "marray list \<Rightarrow> nat \<Rightarrow> nat \<Rightarrow> marray \<Rightarrow> error + marray list" where
  "setitem t R ilev x =
     (if ilev \<ge> length t then Inl IndexError
      else if length x = R then Inr (t[ilev := x])
      else if length x = 1 then Inr (t[ilev := replicate R (hd x)])
      else Inl ValueError)"

subsection \<open>The search of the bracket (lines 106-129, 221-244)\<close>

record 'a bracket =
  Iabv :: 'a
  Aabv :: 'a
  Abel :: 'a
  Ibel :: 'a
  Ieq :: 'a

text \<open>Lines 106-111: every array is \<open>-1\<close>, and \<open>Ieq\<close> is masked where it is \<open>-1\<close>.\<close>

definition bracket_init :: "nat \<Rightarrow> marray bracket" where
  "bracket_init sh2 =
     (let ones = replicate sh2 (Some 1);
          neg = map (\<lambda>x. c_mul (Some (-1)) x) ones
      in \<lparr>Iabv = neg, Aabv = neg, Abel = neg, Ibel = neg,
          Ieq = MV2_masked_equal neg (-1)\<rparr>)"

text \<open>The body of the loop over the source levels, lines 113-129.\<close>

definition bracket_step ::
  "marray list \<Rightarrow> marray list \<Rightarrow> real \<Rightarrow> nat \<Rightarrow> marray bracket \<Rightarrow> error + marray bracket" where
  "bracket_step A Idx lev i s =
     bind_err (getitem Idx i) (\<lambda>Ii.
     bind_err (getitem Idx (i - 1)) (\<lambda>Ip.
     bind_err (MV2_logical_and (MV2_greater_equal Ii lev) (MV2_less_equal Ip lev)) (\<lambda>a.
     bind_err (MV2_where a Ii (Iabv s)) (\<lambda>iabv.
     bind_err (getitem A i) (\<lambda>Ai.
     bind_err (MV2_where a Ai (Aabv s)) (\<lambda>aabv.
     bind_err (MV2_where a Ip (Ibel s)) (\<lambda>ibel.
     bind_err (getitem A (i - 1)) (\<lambda>Ap.
     bind_err (MV2_where a Ap (Abel s)) (\<lambda>abel.
     bind_err (MV2_where (MV2_equal Ii lev) Ai (Ieq s)) (\<lambda>ieq.
       Inr \<lparr>Iabv = iabv, Aabv = aabv, Abel = abel, Ibel = ibel, Ieq = ieq\<rparr>))))))))))"

primrec bracket_loop ::
  "marray list \<Rightarrow> marray list \<Rightarrow> real \<Rightarrow> nat list \<Rightarrow> marray bracket \<Rightarrow> error + marray bracket" where
  "bracket_loop A Idx lev [] s = Inr s"
| "bracket_loop A Idx lev (i # js) s =
     bind_err (bracket_step A Idx lev i s) (bracket_loop A Idx lev js)"

text \<open>\<open>for i in range(1, nsigma)\<close>, from the initial arrays of shape \<open>sh2\<close>.\<close>

definition bracket_search ::
  "marray list \<Rightarrow> marray list \<Rightarrow> nat \<Rightarrow> real \<Rightarrow> error + marray bracket" where
  "bracket_search A Idx sh2 lev =
     bracket_loop A Idx lev [1 ..< length Idx] (bracket_init sh2)"

subsection \<open>Interpolation of one level (lines 131-141, 246-258)\<close>

datatype kind = Linear | LogLinear

text \<open>
  \<open>val\<close> is the level, masked where \<open>Ibel\<close> still is \<open>-1\<close> (lines 131-132); the data is
  \<open>numpy.ones(Ibel.shape) * lev\<close>.
\<close>

definition level_val :: "marray bracket \<Rightarrow> real \<Rightarrow> error + marray" where
  "level_val s lev =
     MV2_masked_where (MV2_equal (Ibel s) (-1)) (replicate (length (Ibel s)) (Some lev))"

text \<open>Line 136: \<open>(val - Ibel) / (Iabv - Ibel) * (Aabv - Abel) + Abel\<close>.\<close>

definition linear_formula :: "marray \<Rightarrow> marray bracket \<Rightarrow> error + marray" where
  "linear_formula val s =
     bind_err (binop c_sub val (Ibel s)) (\<lambda>num.
     bind_err (binop c_sub (Iabv s) (Ibel s)) (\<lambda>den.
     bind_err (binop c_div num den) (\<lambda>q.
     bind_err (binop c_sub (Aabv s) (Abel s)) (\<lambda>d.
     bind_err (binop c_mul q d) (\<lambda>p.
       binop c_add p (Abel s))))))"

text \<open>Lines 251-254: \<open>log(val / Pbel) / log(Pabv / Pbel) * (Aabv - Abel) + Abel\<close>.\<close>

definition loglinear_formula :: "marray \<Rightarrow> marray bracket \<Rightarrow> error + marray" where
  "loglinear_formula val s =
     bind_err (binop c_div val (Ibel s)) (\<lambda>r1.
     bind_err (binop c_div (Iabv s) (Ibel s)) (\<lambda>r2.
     bind_err (binop c_div (MV2_log r1) (MV2_log r2)) (\<lambda>q.
     bind_err (binop c_sub (Aabv s) (Abel s)) (\<lambda>d.
     bind_err (binop c_mul q d) (\<lambda>p.
       binop c_add p (Abel s))))))"

definition formula :: "kind \<Rightarrow> marray \<Rightarrow> marray bracket \<Rightarrow> error + marray" where
  "formula k val s = (case k of Linear \<Rightarrow> linear_formula val s
                      | LogLinear \<Rightarrow> loglinear_formula val s)"

text \<open>
  Lines 138-141: the mask of \<open>Ieq\<close> is \<open>nomask\<close> when no cell of it is masked
  (\<open>where\<close> and \<open>masked_equal\<close> collapse an all-false mask); then \<open>tl\<close> is \<open>Ieq\<close>.
  Otherwise \<open>tl\<close> is \<open>Ieq\<close> where \<open>1 - Ieq.mask\<close> is true, and the formula elsewhere.
  On an array without a masked cell the second branch selects \<open>Ieq\<close> in every cell
  too, so the two branches agree there.
\<close>

definition nomask :: "marray \<Rightarrow> bool" where
  "nomask xs = list_all (\<lambda>x. x \<noteq> None) xs"

definition not_mask :: "marray \<Rightarrow> barray" where
  "not_mask xs = map (\<lambda>x. Some (x \<noteq> None)) xs"

definition exact_override :: "marray \<Rightarrow> marray \<Rightarrow> error + marray" where
  "exact_override ieq x =
     (if nomask ieq then Inr ieq else MV2_where (not_mask ieq) ieq x)"

definition interp_level ::
  "kind \<Rightarrow> marray list \<Rightarrow> marray list \<Rightarrow> nat \<Rightarrow> real \<Rightarrow> error + marray" where
  "interp_level k A Idx sh2 lev =
     bind_err (bracket_search A Idx sh2 lev) (\<lambda>s.
     bind_err (level_val s lev) (\<lambda>val.
     bind_err (formula k val s) (\<lambda>x.
       exact_override (Ieq s) x)))"

subsection \<open>The loop over the target levels (lines 102-142, 217-259)\<close>

primrec level_loop ::
  "kind \<Rightarrow> marray list \<Rightarrow> marray list \<Rightarrow> nat \<Rightarrow> real list \<Rightarrow> nat list \<Rightarrow> marray list
     \<Rightarrow> error + marray list" where
  "level_loop k A Idx sh2 levels [] t = Inr t"
| "level_loop k A Idx sh2 levels (ilev # js) t =
     bind_err (getitem levels ilev) (\<lambda>lev.
     bind_err (interp_level k A Idx sh2 lev) (\<lambda>x.
     bind_err (setitem t sh2 ilev x) (\<lambda>t'.
       level_loop k A Idx sh2 levels js t')))"

text \<open>
  Lines 96-102: the output has \<open>nlev\<close> slices of zeros of the shape of a slice of
  \<open>Idx\<close>; \<open>Idx[0]\<close> raises when \<open>Idx\<close> has no level.
\<close>

definition interp_levels ::
  "kind \<Rightarrow> marray list \<Rightarrow> marray list \<Rightarrow> real list \<Rightarrow> error + marray list" where
  "interp_levels k A Idx levels =
     bind_err (getitem Idx 0) (\<lambda>I0.
       let nlev = length levels;
           sh2 = length I0;
           t = replicate nlev (replicate sh2 (Some 0))
       in level_loop k A Idx sh2 levels [0 ..< nlev] t)"

subsection \<open>The entry points\<close>

text \<open>
  \<open>levels\<close> is a sequence or a single number: \<open>len(levels)\<close> raises on a number, and the
  handler of lines 90-92 makes it a list of one element.
\<close>

datatype levels_arg = Scalar real | Sequence "real list"

definition normalize_levels :: "levels_arg \<Rightarrow> real list" where
  "normalize_levels l = (case l of Sequence xs \<Rightarrow> xs | Scalar x \<Rightarrow> [x])"

text \<open>
  The process-wide setting of cdms2 for the bounds of new axes, read by
  \<open>getAutoBounds\<close> and written by \<open>setAutoBounds\<close>.
\<close>

datatype autobounds = AutoOff | AutoOn | AutoGrid

definition getAutoBounds :: "autobounds \<Rightarrow> autobounds" where
  "getAutoBounds g = g"

definition setAutoBounds :: "autobounds \<Rightarrow> autobounds \<Rightarrow> autobounds" where
  "setAutoBounds mode g = mode"

record 'ax tvariable =
  tv_data :: "marray list"
  tv_axis :: 'ax

text \<open>
  Lines 144-165 (261-282). \<open>createAxis\<close> is the constructor of cdms2, a parameter here:
  it reads the setting of the bounds and returns an axis or raises. A call that raises
  leaves the function at once, so the statement after it is not run.
\<close>

definition finish ::
  "(autobounds \<Rightarrow> real list \<Rightarrow> error + 'ax) \<Rightarrow> marray list \<Rightarrow> real list \<Rightarrow> autobounds
     \<Rightarrow> (error + 'ax tvariable) \<times> autobounds" where
  "finish createAxis t levels g =
     (let autobnds = getAutoBounds g;
          g1 = setAutoBounds AutoOff g
      in case createAxis g1 levels of
           Inl e \<Rightarrow> (Inl e, g1)
         | Inr lvl \<Rightarrow> (Inr \<lparr>tv_data = t, tv_axis = lvl\<rparr>, setAutoBounds autobnds g1))"

text \<open>
  The two functions of the source differ in the formula only (line 136 against lines
  251-254); \<open>interpolation\<close> is their common text, with the formula as a parameter.
  An exception in the loop over the levels leaves the function before line 145.
\<close>

definition interpolation ::
  "kind \<Rightarrow> (autobounds \<Rightarrow> real list \<Rightarrow> error + 'ax) \<Rightarrow> marray list \<Rightarrow> marray list
     \<Rightarrow> levels_arg \<Rightarrow> autobounds \<Rightarrow> (error + 'ax tvariable) \<times> autobounds" where
  "interpolation k createAxis A Idx levels g =
     (let lv = normalize_levels levels
      in case interp_levels k A Idx lv of
           Inl e \<Rightarrow> (Inl e, g)
         | Inr t \<Rightarrow> finish createAxis t lv g)"

definition linearInterpolation ::
  "(autobounds \<Rightarrow> real list \<Rightarrow> error + 'ax) \<Rightarrow> marray list \<Rightarrow> marray list
     \<Rightarrow> levels_arg \<Rightarrow> autobounds \<Rightarrow> (error + 'ax tvariable) \<times> autobounds" where
  "linearInterpolation = interpolation Linear"

definition logLinearInterpolation ::
  "(autobounds \<Rightarrow> real list \<Rightarrow> error + 'ax) \<Rightarrow> marray list \<Rightarrow> marray list
     \<Rightarrow> levels_arg \<Rightarrow> autobounds \<Rightarrow> (error + 'ax tvariable) \<times> autobounds" where
  "logLinearInterpolation = interpolation LogLinear"

text \<open>
  Two constructors to run the entry points with: one returns the data of the axis, one
  raises.
\<close>

definition createAxis_ok :: "autobounds \<Rightarrow> real list \<Rightarrow> error + real list" where
  "createAxis_ok g levels = Inr levels"

definition createAxis_raises :: "autobounds \<Rightarrow> real list \<Rightarrow> error + real list" where
  "createAxis_raises g levels = Inl ValueError"

subsection \<open>One column at a time\<close>

text \<open>
  The functions of this section are not in the source. They describe what the array
  operations above do to the cell of column \<open>c\<close>, and the lemmas that follow prove that
  the array program computes exactly that when \<open>A\<close> and \<open>Idx\<close> have the same shape.
\<close>

definition well_shaped :: "marray list \<Rightarrow> marray list \<Rightarrow> nat \<Rightarrow> bool" where
  "well_shaped A Idx R \<longleftrightarrow>
     Idx \<noteq> [] \<and> length A = length Idx \<and>
     (\<forall>r \<in> set A. length r = R) \<and> (\<forall>r \<in> set Idx. length r = R)"

definition col_init :: "cell bracket" where
  "col_init = \<lparr>Iabv = Some (-1), Aabv = Some (-1), Abel = Some (-1), Ibel = Some (-1),
               Ieq = None\<rparr>"

definition col_match :: "marray list \<Rightarrow> real \<Rightarrow> nat \<Rightarrow> nat \<Rightarrow> bcell" where
  "col_match Idx lev c i =
     c_logical_and (c_greater_equal (Idx ! i ! c) lev) (c_less_equal (Idx ! (i - 1) ! c) lev)"

definition col_step ::
  "marray list \<Rightarrow> marray list \<Rightarrow> real \<Rightarrow> nat \<Rightarrow> nat \<Rightarrow> cell bracket \<Rightarrow> cell bracket" where
  "col_step A Idx lev c i s =
     \<lparr>Iabv = c_where (col_match Idx lev c i) (Idx ! i ! c) (Iabv s),
      Aabv = c_where (col_match Idx lev c i) (A ! i ! c) (Aabv s),
      Abel = c_where (col_match Idx lev c i) (A ! (i - 1) ! c) (Abel s),
      Ibel = c_where (col_match Idx lev c i) (Idx ! (i - 1) ! c) (Ibel s),
      Ieq = c_where (c_equal (Idx ! i ! c) lev) (A ! i ! c) (Ieq s)\<rparr>"

definition col_scan ::
  "marray list \<Rightarrow> marray list \<Rightarrow> real \<Rightarrow> nat \<Rightarrow> nat list \<Rightarrow> cell bracket \<Rightarrow> cell bracket" where
  "col_scan A Idx lev c js s = fold (col_step A Idx lev c) js s"

definition lift :: "nat \<Rightarrow> (nat \<Rightarrow> cell bracket) \<Rightarrow> marray bracket" where
  "lift R cs =
     \<lparr>Iabv = map (\<lambda>c. Iabv (cs c)) [0 ..< R],
      Aabv = map (\<lambda>c. Aabv (cs c)) [0 ..< R],
      Abel = map (\<lambda>c. Abel (cs c)) [0 ..< R],
      Ibel = map (\<lambda>c. Ibel (cs c)) [0 ..< R],
      Ieq = map (\<lambda>c. Ieq (cs c)) [0 ..< R]\<rparr>"

definition col_val :: "cell bracket \<Rightarrow> real \<Rightarrow> cell" where
  "col_val s lev = c_masked_where (c_equal (Ibel s) (-1)) (Some lev)"

definition col_formula :: "kind \<Rightarrow> cell \<Rightarrow> cell bracket \<Rightarrow> cell" where
  "col_formula k v s =
     (case k of
        Linear \<Rightarrow>
          c_add (c_mul (c_div (c_sub v (Ibel s)) (c_sub (Iabv s) (Ibel s)))
                       (c_sub (Aabv s) (Abel s))) (Abel s)
      | LogLinear \<Rightarrow>
          c_add (c_mul (c_div (c_log (c_div v (Ibel s))) (c_log (c_div (Iabv s) (Ibel s))))
                       (c_sub (Aabv s) (Abel s))) (Abel s))"

definition col_out :: "kind \<Rightarrow> cell bracket \<Rightarrow> real \<Rightarrow> cell" where
  "col_out k s lev =
     (case Ieq s of None \<Rightarrow> col_formula k (col_val s lev) s | Some v \<Rightarrow> Some v)"

definition cell_result :: "kind \<Rightarrow> marray list \<Rightarrow> marray list \<Rightarrow> real \<Rightarrow> nat \<Rightarrow> cell" where
  "cell_result k A Idx lev c =
     col_out k (col_scan A Idx lev c [1 ..< length Idx] col_init) lev"

section \<open>The array program computes the columns independently\<close>

lemma bind_err_Inr: "bind_err (Inr v) f = f v"
  by (simp add: bind_err_def)


lemma binop_same: "length xs = length ys \<Longrightarrow> binop f xs ys = Inr (map2 f xs ys)"
  by (simp add: binop_def bshape_def bcast_def bind_err_def)

lemma where_same:
  "length c = n \<Longrightarrow> length x = n \<Longrightarrow> length y = n \<Longrightarrow>
   MV2_where c x y = Inr (map (\<lambda>j. c_where (c ! j) (x ! j) (y ! j)) [0 ..< n])"
  by (auto simp add: MV2_where_def bshape_def bcast_def bind_err_def intro!: nth_equalityI)

lemma binop_same_nth:
  "length xs = n \<Longrightarrow> length ys = n \<Longrightarrow>
   binop f xs ys = Inr (map (\<lambda>j. f (xs ! j) (ys ! j)) [0 ..< n])"
  by (auto simp add: binop_same intro!: nth_equalityI)

lemma bracket_init_lift: "bracket_init R = lift R (\<lambda>c. col_init)"
  by (simp add: bracket_init_def lift_def col_init_def Let_def c_mul_def MV2_masked_equal_def
      c_masked_equal_def c_masked_where_def c_equal_def map_replicate_const)

lemma bracket_step_lift:
  assumes ws: "well_shaped A Idx R" and i: "1 \<le> i" "i < length Idx"
  shows "bracket_step A Idx lev i (lift R cs) =
         Inr (lift R (\<lambda>c. col_step A Idx lev c i (cs c)))"
proof -
  have lI: "length (Idx ! i) = R" "length (Idx ! (i - 1)) = R"
    using ws i by (auto simp: well_shaped_def)
  have lA: "length (A ! i) = R" "length (A ! (i - 1)) = R"
    using ws i by (auto simp: well_shaped_def)
  have gi: "getitem Idx i = Inr (Idx ! i)" "getitem Idx (i - 1) = Inr (Idx ! (i - 1))"
    "getitem A i = Inr (A ! i)" "getitem A (i - 1) = Inr (A ! (i - 1))"
    using ws i by (auto simp: getitem_def well_shaped_def)
  have a: "MV2_logical_and (MV2_greater_equal (Idx ! i) lev) (MV2_less_equal (Idx ! (i - 1)) lev)
           = Inr (map (\<lambda>c. col_match Idx lev c i) [0 ..< R])"
    using lI by (simp add: MV2_logical_and_def binop_same_nth [where n = R]
        MV2_greater_equal_def MV2_less_equal_def col_match_def)
  have e: "MV2_equal (Idx ! i) lev = map (\<lambda>c. c_equal (Idx ! i ! c) lev) [0 ..< R]"
    using lI by (auto simp: MV2_equal_def intro!: nth_equalityI)
  show ?thesis
    unfolding bracket_step_def gi bind_err_Inr a e
    using lI lA
    by (simp add: where_same [where n = R] lift_def col_step_def bind_err_Inr)
qed

lemma bracket_loop_lift:
  assumes ws: "well_shaped A Idx R" and js: "\<forall>i \<in> set js. 1 \<le> i \<and> i < length Idx"
  shows "bracket_loop A Idx lev js (lift R cs) =
         Inr (lift R (\<lambda>c. col_scan A Idx lev c js (cs c)))"
  using js
proof (induction js arbitrary: cs)
  case Nil
  then show ?case by (simp add: col_scan_def)
next
  case (Cons i js)
  then show ?case
    by (simp add: bracket_step_lift [OF ws] bind_err_Inr col_scan_def)
qed

lemma bracket_search_lift:
  assumes ws: "well_shaped A Idx R"
  shows "bracket_search A Idx R lev =
         Inr (lift R (\<lambda>c. col_scan A Idx lev c [1 ..< length Idx] col_init))"
  unfolding bracket_search_def bracket_init_lift
  by (rule bracket_loop_lift [OF ws]) simp

lemma level_val_lift:
  "level_val (lift R cs) lev = Inr (map (\<lambda>c. col_val (cs c) lev) [0 ..< R])"
  by (auto simp: level_val_def lift_def MV2_masked_where_def MV2_equal_def col_val_def
      intro!: nth_equalityI)

lemma formula_lift:
  "formula k (map (\<lambda>c. col_val (cs c) lev) [0 ..< R]) (lift R cs) =
   Inr (map (\<lambda>c. col_formula k (col_val (cs c) lev) (cs c)) [0 ..< R])"
proof (cases k)
  case Linear
  then show ?thesis
    by (simp add: formula_def linear_formula_def lift_def binop_same_nth [where n = R]
        bind_err_Inr col_formula_def)
next
  case LogLinear
  then show ?thesis
    by (simp add: formula_def loglinear_formula_def lift_def binop_same_nth [where n = R]
        bind_err_Inr col_formula_def MV2_log_def)
qed

lemma exact_override_lift:
  "exact_override (map (\<lambda>c. Ieq (cs c)) [0 ..< R])
     (map (\<lambda>c. col_formula k (col_val (cs c) lev) (cs c)) [0 ..< R]) =
   Inr (map (\<lambda>c. col_out k (cs c) lev) [0 ..< R])"
proof (cases "nomask (map (\<lambda>c. Ieq (cs c)) [0 ..< R])")
  case True
  then have "\<forall>c < R. Ieq (cs c) \<noteq> None"
    by (simp add: nomask_def list_all_iff)
  then have "map (\<lambda>c. Ieq (cs c)) [0 ..< R] = map (\<lambda>c. col_out k (cs c) lev) [0 ..< R]"
    by (auto simp: col_out_def)
  then have "Inr (map (\<lambda>c. Ieq (cs c)) [0 ..< R]) =
             (Inr (map (\<lambda>c. col_out k (cs c) lev) [0 ..< R]) :: error + marray)"
    by (rule arg_cong)
  moreover have "exact_override (map (\<lambda>c. Ieq (cs c)) [0 ..< R]) x =
                 Inr (map (\<lambda>c. Ieq (cs c)) [0 ..< R])" for x
    using True by (simp add: exact_override_def)
  ultimately show ?thesis by (simp only:)
next
  case False
  then show ?thesis
    by (auto simp: exact_override_def where_same [where n = R] not_mask_def col_out_def
        c_where_def split: option.splits)
qed

lemma interp_level_lift:
  assumes ws: "well_shaped A Idx R"
  shows "interp_level k A Idx R lev = Inr (map (cell_result k A Idx lev) [0 ..< R])"
proof -
  have "exact_override (Ieq (lift R cs)) x = exact_override (map (\<lambda>c. Ieq (cs c)) [0 ..< R]) x"
    for cs x by (simp add: lift_def)
  then show ?thesis
    unfolding interp_level_def bracket_search_lift [OF ws] bind_err_Inr level_val_lift
      formula_lift
    by (simp add: exact_override_lift cell_result_def [abs_def])
qed

lemma level_loop_lift:
  assumes ws: "well_shaped A Idx R"
  shows "length t = length levels \<Longrightarrow> j \<le> length levels \<Longrightarrow>
         level_loop k A Idx R levels [j ..< length levels] t =
         Inr (take j t @ map (\<lambda>lev. map (cell_result k A Idx lev) [0 ..< R]) (drop j levels))"
proof (induction "length levels - j" arbitrary: j t)
  case 0
  then show ?case by simp
next
  case (Suc d)
  then have j: "j < length levels" by simp
  have IH: "level_loop k A Idx R levels [Suc j ..< length levels]
              (t[j := map (cell_result k A Idx (levels ! j)) [0 ..< R]]) =
            Inr (take (Suc j) (t[j := map (cell_result k A Idx (levels ! j)) [0 ..< R]]) @
                 map (\<lambda>lev. map (cell_result k A Idx lev) [0 ..< R]) (drop (Suc j) levels))"
    using Suc j by (intro Suc.hyps(1)) auto
  have tk: "take (Suc j) (t[j := x]) = take j t @ [x]" for x
    using j Suc.prems(1) by (simp add: take_Suc_conv_app_nth)
  have dr: "drop j levels = levels ! j # drop (Suc j) levels"
    using j by (simp add: Cons_nth_drop_Suc)
  show ?case
    using j Suc.prems(1)
    by (simp add: upt_conv_Cons getitem_def bind_err_Inr interp_level_lift [OF ws] setitem_def
        IH tk dr)
qed

lemma interp_levels_lift:
  assumes ws: "well_shaped A Idx R"
  shows "interp_levels k A Idx levels =
         Inr (map (\<lambda>lev. map (cell_result k A Idx lev) [0 ..< R]) levels)"
proof -
  have g0: "getitem Idx 0 = Inr (Idx ! 0)" and l0: "length (Idx ! 0) = R"
    using ws by (auto simp: well_shaped_def getitem_def)
  show ?thesis
    unfolding interp_levels_def g0 bind_err_Inr Let_def l0
    using level_loop_lift [OF ws, of "replicate (length levels) (replicate R (Some 0))" levels 0 k]
    by simp
qed

lemma interpolation_lift:
  assumes ws: "well_shaped A Idx R"
    and ax: "createAxis AutoOff (normalize_levels levels) = Inr ax"
  shows "interpolation k createAxis A Idx levels g =
         (Inr \<lparr>tv_data = map (\<lambda>lev. map (cell_result k A Idx lev) [0 ..< R])
                            (normalize_levels levels),
               tv_axis = ax\<rparr>, g)"
  by (simp add: interpolation_def interp_levels_lift [OF ws] finish_def Let_def ax
      getAutoBounds_def setAutoBounds_def)

section \<open>The scan of one column\<close>

lemma col_scan_Nil: "col_scan A Idx lev c [] s = s"
  by (simp add: col_scan_def)

lemma col_scan_Cons:
  "col_scan A Idx lev c (i # js) s = col_scan A Idx lev c js (col_step A Idx lev c i s)"
  by (simp add: col_scan_def)

lemma col_scan_append:
  "col_scan A Idx lev c (xs @ ys) s = col_scan A Idx lev c ys (col_scan A Idx lev c xs s)"
  by (simp add: col_scan_def)

lemma c_where_simps:
  "c_where None x y = None"
  "c_where (Some True) x y = x"
  "c_where (Some False) x y = y"
  by (simp_all add: c_where_def)

lemma col_scan_keep_bracket:
  assumes "\<forall>i \<in> set js. col_match Idx lev c i = Some False"
  shows "Iabv (col_scan A Idx lev c js s) = Iabv s \<and>
         Aabv (col_scan A Idx lev c js s) = Aabv s \<and>
         Abel (col_scan A Idx lev c js s) = Abel s \<and>
         Ibel (col_scan A Idx lev c js s) = Ibel s"
  using assms
  by (induction js arbitrary: s) (simp_all add: col_scan_Nil col_scan_Cons col_step_def c_where_simps)

lemma col_scan_keep_Ieq:
  assumes "\<forall>i \<in> set js. c_equal (Idx ! i ! c) lev = Some False"
  shows "Ieq (col_scan A Idx lev c js s) = Ieq s"
  using assms
  by (induction js arbitrary: s) (simp_all add: col_scan_Nil col_scan_Cons col_step_def c_where_simps)

lemma col_scan_Ieq_None:
  assumes "\<forall>i \<in> set js. c_equal (Idx ! i ! c) lev \<noteq> Some True" and "Ieq s = None"
  shows "Ieq (col_scan A Idx lev c js s) = None"
  using assms
proof (induction js arbitrary: s)
  case Nil
  then show ?case by (simp add: col_scan_Nil)
next
  case (Cons i js)
  have "Ieq (col_step A Idx lev c i s) = None"
    using Cons.prems by (cases "c_equal (Idx ! i ! c) lev") (auto simp: col_step_def c_where_def)
  with Cons show ?case by (simp add: col_scan_Cons)
qed

lemma upt_split:
  assumes "1 \<le> j" "j < n"
  shows "[1 ..< n] = [1 ..< j] @ j # [Suc j ..< n]"
proof -
  have "[1 ..< j + (n - j)] = [1 ..< j] @ [j ..< j + (n - j)]"
    using assms(1) by (rule upt_add_eq_append)
  then show ?thesis using assms by (simp add: upt_conv_Cons)
qed

lemma col_scan_last_bracket:
  assumes j: "1 \<le> j" "j < n"
    and m: "col_match Idx lev c j = Some True"
    and later: "\<forall>i. j < i \<and> i < n \<longrightarrow> col_match Idx lev c i = Some False"
  shows "Iabv (col_scan A Idx lev c [1 ..< n] s) = Idx ! j ! c \<and>
         Aabv (col_scan A Idx lev c [1 ..< n] s) = A ! j ! c \<and>
         Abel (col_scan A Idx lev c [1 ..< n] s) = A ! (j - 1) ! c \<and>
         Ibel (col_scan A Idx lev c [1 ..< n] s) = Idx ! (j - 1) ! c"
proof -
  have k: "\<forall>i \<in> set [Suc j ..< n]. col_match Idx lev c i = Some False"
    using later by simp
  show ?thesis
    unfolding upt_split [OF j] col_scan_append col_scan_Cons
    using col_scan_keep_bracket [OF k, of A] m
    by (simp add: col_step_def c_where_simps)
qed

lemma col_scan_last_exact:
  assumes j: "1 \<le> j" "j < n"
    and m: "c_equal (Idx ! j ! c) lev = Some True"
    and later: "\<forall>i. j < i \<and> i < n \<longrightarrow> c_equal (Idx ! i ! c) lev = Some False"
  shows "Ieq (col_scan A Idx lev c [1 ..< n] s) = A ! j ! c"
proof -
  have k: "\<forall>i \<in> set [Suc j ..< n]. c_equal (Idx ! i ! c) lev = Some False"
    using later by simp
  show ?thesis
    unfolding upt_split [OF j] col_scan_append col_scan_Cons
    using col_scan_keep_Ieq [OF k, of A] m
    by (simp add: col_step_def c_where_simps)
qed


lemma col_out_sentinel:
  assumes "Ieq s = None" and "Ibel s = None \<or> Ibel s = Some (-1)"
  shows "col_out k s lev = None"
  using assms
  by (cases k)
    (auto simp: col_out_def col_val_def col_formula_def c_masked_where_def c_equal_def
      c_sub_def c_div_def c_mul_def c_add_def c_log_def)

lemma col_scan_no_bracket:
  assumes "\<forall>i \<in> set js. col_match Idx lev c i \<noteq> Some True"
    and "Ibel s = None \<or> Ibel s = Some (-1)"
  shows "Ibel (col_scan A Idx lev c js s) = None \<or> Ibel (col_scan A Idx lev c js s) = Some (-1)"
  using assms
proof (induction js arbitrary: s)
  case Nil
  then show ?case by (simp add: col_scan_Nil)
next
  case (Cons i js)
  have "Ibel (col_step A Idx lev c i s) = None \<or> Ibel (col_step A Idx lev c i s) = Some (-1)"
    using Cons.prems by (cases "col_match Idx lev c i") (auto simp: col_step_def c_where_def)
  with Cons show ?case by (simp add: col_scan_Cons)
qed


lemma col_match_True_iff:
  "col_match Idx lev c i = Some True \<longleftrightarrow>
   (\<exists>u w. Idx ! i ! c = Some u \<and> Idx ! (i - 1) ! c = Some w \<and> u \<ge> lev \<and> w \<le> lev)"
  by (auto simp: col_match_def c_logical_and_def c_greater_equal_def c_less_equal_def
      split: option.splits)

lemma col_match_False_iff:
  "col_match Idx lev c i = Some False \<longleftrightarrow>
   (\<exists>x y. Idx ! i ! c = Some x \<and> Idx ! (i - 1) ! c = Some y \<and> \<not> (x \<ge> lev \<and> y \<le> lev))"
  by (auto simp: col_match_def c_logical_and_def c_greater_equal_def c_less_equal_def
      split: option.splits)

lemma c_equal_True_iff: "c_equal x lev = Some True \<longleftrightarrow> x = Some lev"
  by (auto simp: c_equal_def split: option.splits)

lemma c_equal_False_iff: "c_equal x lev = Some False \<longleftrightarrow> (\<exists>v. x = Some v \<and> v \<noteq> lev)"
  by (auto simp: c_equal_def split: option.splits)

lemma bracket_search_nth:
  assumes ws: "well_shaped A Idx R" and c: "c < R"
  shows "\<exists>s. bracket_search A Idx R lev = Inr s \<and>
           Iabv s ! c = Iabv (col_scan A Idx lev c [1 ..< length Idx] col_init) \<and>
           Aabv s ! c = Aabv (col_scan A Idx lev c [1 ..< length Idx] col_init) \<and>
           Abel s ! c = Abel (col_scan A Idx lev c [1 ..< length Idx] col_init) \<and>
           Ibel s ! c = Ibel (col_scan A Idx lev c [1 ..< length Idx] col_init) \<and>
           Ieq s ! c = Ieq (col_scan A Idx lev c [1 ..< length Idx] col_init)"
  using c by (simp add: bracket_search_lift [OF ws] lift_def)

section \<open>The claims\<close>

text \<open>
  C4. The search of the bracket runs over the source indices 1 to nsigma - 1. In a
  column whose coordinates are valid, when index \<open>j\<close> brackets the level
  (\<open>Idx[j] \<ge> lev\<close> and \<open>Idx[j-1] \<le> lev\<close>) and no later index does, the recorded bracket
  is the one of \<open>j\<close>: \<open>Iabv = Idx[j]\<close>, \<open>Ibel = Idx[j-1]\<close>, \<open>Aabv = A[j]\<close>,
  \<open>Abel = A[j-1]\<close>, whatever the earlier indices do. Likewise \<open>Ieq\<close> is the field at the
  last index \<open>e\<close> whose coordinate equals the level.
\<close>

theorem bracket_search_last_match_wins:
  assumes ws: "well_shaped A Idx R" and c: "c < R"
  shows "(1 \<le> j \<and> j < length Idx \<and>
          (\<exists>u w. Idx ! j ! c = Some u \<and> Idx ! (j - 1) ! c = Some w \<and> u \<ge> lev \<and> w \<le> lev) \<and>
          (\<forall>i. j < i \<and> i < length Idx \<longrightarrow>
             (\<exists>x y. Idx ! i ! c = Some x \<and> Idx ! (i - 1) ! c = Some y \<and>
                    \<not> (x \<ge> lev \<and> y \<le> lev)))
          \<longrightarrow> (\<exists>s. bracket_search A Idx R lev = Inr s \<and>
                 Iabv s ! c = Idx ! j ! c \<and> Ibel s ! c = Idx ! (j - 1) ! c \<and>
                 Aabv s ! c = A ! j ! c \<and> Abel s ! c = A ! (j - 1) ! c)) \<and>
         (1 \<le> e \<and> e < length Idx \<and> Idx ! e ! c = Some lev \<and>
          (\<forall>i. e < i \<and> i < length Idx \<longrightarrow> (\<exists>x. Idx ! i ! c = Some x \<and> x \<noteq> lev))
          \<longrightarrow> (\<exists>s. bracket_search A Idx R lev = Inr s \<and> Ieq s ! c = A ! e ! c))"
proof (intro conjI impI)
  assume h: "1 \<le> j \<and> j < length Idx \<and>
          (\<exists>u w. Idx ! j ! c = Some u \<and> Idx ! (j - 1) ! c = Some w \<and> u \<ge> lev \<and> w \<le> lev) \<and>
          (\<forall>i. j < i \<and> i < length Idx \<longrightarrow>
             (\<exists>x y. Idx ! i ! c = Some x \<and> Idx ! (i - 1) ! c = Some y \<and>
                    \<not> (x \<ge> lev \<and> y \<le> lev)))"
  then have m: "col_match Idx lev c j = Some True"
    and l: "\<forall>i. j < i \<and> i < length Idx \<longrightarrow> col_match Idx lev c i = Some False"
    unfolding col_match_True_iff col_match_False_iff by blast+
  from h have j: "1 \<le> j" "j < length Idx" by simp_all
  show "\<exists>s. bracket_search A Idx R lev = Inr s \<and>
                 Iabv s ! c = Idx ! j ! c \<and> Ibel s ! c = Idx ! (j - 1) ! c \<and>
                 Aabv s ! c = A ! j ! c \<and> Abel s ! c = A ! (j - 1) ! c"
    using bracket_search_nth [OF ws c, of lev] col_scan_last_bracket [OF j m l, of A col_init]
    by auto
next
  assume h: "1 \<le> e \<and> e < length Idx \<and> Idx ! e ! c = Some lev \<and>
          (\<forall>i. e < i \<and> i < length Idx \<longrightarrow> (\<exists>x. Idx ! i ! c = Some x \<and> x \<noteq> lev))"
  then have m: "c_equal (Idx ! e ! c) lev = Some True"
    and l: "\<forall>i. e < i \<and> i < length Idx \<longrightarrow> c_equal (Idx ! i ! c) lev = Some False"
    unfolding c_equal_True_iff c_equal_False_iff by blast+
  from h have e: "1 \<le> e" "e < length Idx" by simp_all
  show "\<exists>s. bracket_search A Idx R lev = Inr s \<and> Ieq s ! c = A ! e ! c"
    using bracket_search_nth [OF ws c, of lev] col_scan_last_exact [OF e m l, of A col_init]
    by auto
qed

theorem bracket_search_last_match_wins_witness:
  "(\<exists>s. bracket_search [[Some 1], [Some 2], [Some 3], [Some 4]]
            [[Some 1], [Some 5], [Some 2], [Some 5]] 1 5 = Inr s \<and>
        Iabv s ! 0 = Some 5 \<and> Ibel s ! 0 = Some 2 \<and> Aabv s ! 0 = Some 4 \<and> Abel s ! 0 = Some 3) \<and>
   (\<exists>s. bracket_search [[Some 1], [Some 2], [Some 3], [Some 4]]
            [[Some 1], [Some 5], [Some 2], [Some 5]] 1 5 = Inr s \<and> Ieq s ! 0 = Some 4)"
proof -
  have ws: "well_shaped [[Some 1], [Some 2], [Some 3], [Some 4]]
              [[Some 1], [Some 5], [Some 2], [Some 5]] 1"
    by (simp add: well_shaped_def)
  have c: "(0::nat) < 1" by simp
  show ?thesis
    using bracket_search_last_match_wins [OF ws c, of 3 5 3]
    by (simp add: numeral_3_eq_3)
qed

lemma interpolation_nth:
  assumes ws: "well_shaped A Idx R" and c: "c < R"
    and lv: "ilev < length (normalize_levels levels)"
    and ax: "createAxis AutoOff (normalize_levels levels) = Inr ax"
  shows "\<exists>t. fst (interpolation k createAxis A Idx levels g) = Inr t \<and>
             tv_data t ! ilev ! c = cell_result k A Idx (normalize_levels levels ! ilev) c"
  using c lv ax by (simp add: interpolation_lift [OF ws])

lemma cell_result_out_of_range:
  assumes out: "(\<forall>i < length Idx. \<forall>v. Idx ! i ! c = Some v \<longrightarrow> lev < v) \<or>
                (\<forall>i < length Idx. \<forall>v. Idx ! i ! c = Some v \<longrightarrow> v < lev)"
  shows "cell_result k A Idx lev c = None"
proof -
  have nb: "\<forall>i \<in> set [1 ..< length Idx]. col_match Idx lev c i \<noteq> Some True"
  proof
    fix i assume "i \<in> set [1 ..< length Idx]"
    then have i: "i < length Idx" "i - 1 < length Idx" by auto
    show "col_match Idx lev c i \<noteq> Some True"
      unfolding col_match_True_iff using out i by force
  qed
  have ne: "\<forall>i \<in> set [1 ..< length Idx]. c_equal (Idx ! i ! c) lev \<noteq> Some True"
    unfolding c_equal_True_iff using out by force
  have "Ieq (col_scan A Idx lev c [1 ..< length Idx] col_init) = None"
    by (rule col_scan_Ieq_None [OF ne]) (simp add: col_init_def)
  moreover have "Ibel (col_scan A Idx lev c [1 ..< length Idx] col_init) = None \<or>
                 Ibel (col_scan A Idx lev c [1 ..< length Idx] col_init) = Some (-1)"
    by (rule col_scan_no_bracket [OF nb]) (simp add: col_init_def)
  ultimately show ?thesis
    unfolding cell_result_def by (rule col_out_sentinel)
qed

text \<open>
  C3. When the target level is below every valid coordinate of a column, or above every
  one, both functions return (they do not raise) and the cell of that column and level
  is masked.
\<close>

theorem out_of_range_is_missing:
  assumes ws: "well_shaped A Idx R" and c: "c < R"
    and lv: "ilev < length (normalize_levels levels)"
    and ax: "createAxis AutoOff (normalize_levels levels) = Inr ax"
    and out: "(\<forall>i < length Idx. \<forall>v. Idx ! i ! c = Some v \<longrightarrow> normalize_levels levels ! ilev < v) \<or>
              (\<forall>i < length Idx. \<forall>v. Idx ! i ! c = Some v \<longrightarrow> v < normalize_levels levels ! ilev)"
  shows "(\<exists>t. fst (linearInterpolation createAxis A Idx levels g) = Inr t \<and>
              tv_data t ! ilev ! c = None) \<and>
         (\<exists>t. fst (logLinearInterpolation createAxis A Idx levels g) = Inr t \<and>
              tv_data t ! ilev ! c = None)"
  unfolding linearInterpolation_def logLinearInterpolation_def
  using interpolation_nth [where createAxis = createAxis and k = Linear and g = g, OF ws c lv ax]
    interpolation_nth [where createAxis = createAxis and k = LogLinear and g = g, OF ws c lv ax]
    cell_result_out_of_range [OF out]
  by simp

theorem out_of_range_is_missing_witness:
  "(\<exists>t. fst (linearInterpolation createAxis_ok [[Some 1], [Some 2], [Some 3]]
             [[Some 20000], [Some 50000], [Some 100000]] (Sequence [150000]) AutoGrid) = Inr t \<and>
        tv_data t ! 0 ! 0 = None) \<and>
   (\<exists>t. fst (logLinearInterpolation createAxis_ok [[Some 1], [Some 2], [Some 3]]
             [[Some 20000], [Some 50000], [Some 100000]] (Sequence [150000]) AutoGrid) = Inr t \<and>
        tv_data t ! 0 ! 0 = None)"
proof -
  have ws: "well_shaped [[Some 1], [Some 2], [Some 3]]
              [[Some 20000], [Some 50000], [Some 100000]] 1"
    by (simp add: well_shaped_def)
  have c: "(0::nat) < 1" by simp
  have lv: "0 < length (normalize_levels (Sequence [150000]))"
    by (simp add: normalize_levels_def)
  have ax: "createAxis_ok AutoOff (normalize_levels (Sequence [150000])) = Inr [150000]"
    by (simp add: createAxis_ok_def normalize_levels_def)
  have out: "(\<forall>i < length [[Some 20000], [Some 50000], [Some (100000::real)]]. \<forall>v.
                [[Some 20000], [Some 50000], [Some 100000]] ! i ! 0 = Some v \<longrightarrow>
                normalize_levels (Sequence [150000]) ! 0 < v) \<or>
             (\<forall>i < length [[Some 20000], [Some 50000], [Some (100000::real)]]. \<forall>v.
                [[Some 20000], [Some 50000], [Some 100000]] ! i ! 0 = Some v \<longrightarrow>
                v < normalize_levels (Sequence [150000]) ! 0)"
    by (auto simp: normalize_levels_def less_Suc_eq numeral_3_eq_3)
  show ?thesis
    by (rule out_of_range_is_missing [where createAxis = createAxis_ok, OF ws c lv ax out])
qed

text \<open>
  C9. The test for "no bracket" is \<open>Ibel = -1\<close>. A column whose last bracketing pair
  has the coordinate \<open>-1\<close> below, and no coordinate equal to the level, is masked in
  the result although a bracket was found.
\<close>

theorem sentinel_bracket_is_missing:
  assumes ws: "well_shaped A Idx R" and c: "c < R"
    and lv: "ilev < length (normalize_levels levels)"
    and ax: "createAxis AutoOff (normalize_levels levels) = Inr ax"
    and j: "1 \<le> j" "j < length Idx"
    and below: "Idx ! (j - 1) ! c = Some (-1)" "-1 \<le> normalize_levels levels ! ilev"
    and above: "Idx ! j ! c = Some u" "u \<ge> normalize_levels levels ! ilev"
    and later: "\<forall>i. j < i \<and> i < length Idx \<longrightarrow>
                  (\<exists>x y. Idx ! i ! c = Some x \<and> Idx ! (i - 1) ! c = Some y \<and>
                         \<not> (x \<ge> normalize_levels levels ! ilev \<and> y \<le> normalize_levels levels ! ilev))"
    and noexact: "\<forall>i < length Idx. Idx ! i ! c \<noteq> Some (normalize_levels levels ! ilev)"
  shows "(\<exists>s. bracket_search A Idx R (normalize_levels levels ! ilev) = Inr s \<and>
              Ibel s ! c = Some (-1) \<and> Iabv s ! c = Some u) \<and>
         (\<exists>t. fst (linearInterpolation createAxis A Idx levels g) = Inr t \<and>
              tv_data t ! ilev ! c = None) \<and>
         (\<exists>t. fst (logLinearInterpolation createAxis A Idx levels g) = Inr t \<and>
              tv_data t ! ilev ! c = None)"
proof -
  let ?lev = "normalize_levels levels ! ilev"
  let ?s = "col_scan A Idx ?lev c [1 ..< length Idx] col_init"
  have m: "col_match Idx ?lev c j = Some True"
    unfolding col_match_True_iff using below above by simp
  have l: "\<forall>i. j < i \<and> i < length Idx \<longrightarrow> col_match Idx ?lev c i = Some False"
    unfolding col_match_False_iff using later by blast
  have br: "Ibel ?s = Some (-1)" "Iabv ?s = Some u"
    using col_scan_last_bracket [OF j m l, of A col_init] below above by simp_all
  have ne: "\<forall>i \<in> set [1 ..< length Idx]. c_equal (Idx ! i ! c) ?lev \<noteq> Some True"
    unfolding c_equal_True_iff using noexact by simp
  have eq: "Ieq ?s = None"
    by (rule col_scan_Ieq_None [OF ne]) (simp add: col_init_def)
  have res: "cell_result k A Idx ?lev c = None" for k
    unfolding cell_result_def using eq br(1) by (intro col_out_sentinel) simp_all
  show ?thesis
    unfolding linearInterpolation_def logLinearInterpolation_def
    using interpolation_nth [where createAxis = createAxis and k = Linear and g = g, OF ws c lv ax]
      interpolation_nth [where createAxis = createAxis and k = LogLinear and g = g, OF ws c lv ax]
      bracket_search_nth [OF ws c, of ?lev] res br
    by auto
qed

theorem sentinel_bracket_is_missing_witness:
  "(\<exists>s. bracket_search [[Some 1], [Some 2]] [[Some (-1)], [Some 10]] 1 5 = Inr s \<and>
        Ibel s ! 0 = Some (-1) \<and> Iabv s ! 0 = Some 10) \<and>
   (\<exists>t. fst (linearInterpolation createAxis_ok [[Some 1], [Some 2]] [[Some (-1)], [Some 10]]
             (Sequence [5]) AutoGrid) = Inr t \<and> tv_data t ! 0 ! 0 = None) \<and>
   (\<exists>t. fst (logLinearInterpolation createAxis_ok [[Some 1], [Some 2]] [[Some (-1)], [Some 10]]
             (Sequence [5]) AutoGrid) = Inr t \<and> tv_data t ! 0 ! 0 = None)"
proof -
  have ws: "well_shaped [[Some 1], [Some 2]] [[Some (-1)], [Some 10]] 1"
    by (simp add: well_shaped_def)
  have c: "(0::nat) < 1" by simp
  have lv: "0 < length (normalize_levels (Sequence [5]))"
    by (simp add: normalize_levels_def)
  have ax: "createAxis_ok AutoOff (normalize_levels (Sequence [5])) = Inr [5]"
    by (simp add: createAxis_ok_def normalize_levels_def)
  have nl: "normalize_levels (Sequence [5]) ! 0 = 5"
    by (simp add: normalize_levels_def)
  have j: "(1::nat) \<le> 1" "1 < length [[Some (-1)], [Some (10::real)]]" by simp_all
  have below: "[[Some (-1)], [Some (10::real)]] ! (1 - 1) ! 0 = Some (-1)"
    "-1 \<le> normalize_levels (Sequence [5]) ! 0"
    by (simp_all add: nl)
  have above: "[[Some (-1)], [Some (10::real)]] ! 1 ! 0 = Some 10"
    "10 \<ge> normalize_levels (Sequence [5]) ! 0"
    by (simp_all add: nl)
  have later: "\<forall>i. 1 < i \<and> i < length [[Some (-1)], [Some (10::real)]] \<longrightarrow>
                  (\<exists>x y. [[Some (-1)], [Some 10]] ! i ! 0 = Some x \<and>
                         [[Some (-1)], [Some 10]] ! (i - 1) ! 0 = Some y \<and>
                         \<not> (x \<ge> normalize_levels (Sequence [5]) ! 0 \<and>
                            y \<le> normalize_levels (Sequence [5]) ! 0))"
    by auto
  have noexact: "\<forall>i < length [[Some (-1)], [Some (10::real)]].
                   [[Some (-1)], [Some 10]] ! i ! 0 \<noteq> Some (normalize_levels (Sequence [5]) ! 0)"
    by (auto simp: nl less_Suc_eq)
  show ?thesis
    using sentinel_bracket_is_missing [where createAxis = createAxis_ok and g = AutoGrid, OF ws c lv ax j below above later noexact]
    by (simp add: nl)
qed

lemmas cell_eval =
  cell_result_def col_scan_def col_step_def col_match_def col_init_def col_out_def col_val_def
  col_formula_def c_where_def c_equal_def c_greater_equal_def c_less_equal_def
  c_logical_and_def c_masked_where_def c_sub_def c_div_def c_mul_def c_add_def c_log_def




lemma ln_3_2_over_ln_2_bounds:
  "292 / 500 < ln (3 / 2) / ln (2::real) \<and> ln (3 / 2) / ln (2::real) < 293 / 500"
proof -
  have l2: "0 < ln (2::real)" by simp
  have d: "ln (3 / 2) = ln 3 - ln (2::real)"
    by (simp add: ln_div)
  have e2: "ln ((2::real) ^ 792) = 792 * ln 2" "ln ((2::real) ^ 793) = 793 * ln 2"
    by (simp_all only: ln_realpow of_nat_numeral)
  have e3: "ln ((3::real) ^ 500) = 500 * ln 3"
    by (simp only: ln_realpow of_nat_numeral)
  have p1: "(2::real) ^ 792 < 3 ^ 500" by simp
  have p2: "(3::real) ^ 500 < 2 ^ 793" by simp
  have "ln ((2::real) ^ 792) < ln (3 ^ 500)"
    using p1 by (subst ln_less_cancel_iff) (simp_all only: zero_less_power zero_less_numeral)
  then have lo: "792 * ln (2::real) < 500 * ln 3"
    unfolding e2 e3 .
  have "ln ((3::real) ^ 500) < ln (2 ^ 793)"
    using p2 by (subst ln_less_cancel_iff) (simp_all only: zero_less_power zero_less_numeral)
  then have hi: "500 * ln (3::real) < 793 * ln 2"
    unfolding e2 e3 .
  have a: "292 / 500 * ln (2::real) < ln (3 / 2)"
    unfolding d using lo by linarith
  have b: "ln (3 / 2) < 293 / 500 * ln (2::real)"
    unfolding d using hi by linarith
  have "292 / 500 < ln (3 / 2) / ln (2::real)"
    by (rule iffD2 [OF pos_less_divide_eq [OF l2]]) (fact a)
  moreover have "ln (3 / 2) / ln (2::real) < 293 / 500"
    by (rule iffD2 [OF pos_divide_less_eq [OF l2]]) (fact b)
  ultimately show ?thesis ..
qed

text \<open>
  C2. One column with the coordinates 20000, 50000, 100000 and the field 1, 2, 3, one
  target level 75000: the search records \<open>Iabv = 100000\<close>, \<open>Ibel = 50000\<close>,
  \<open>Aabv = 3\<close>, \<open>Abel = 2\<close> and no exact match; \<open>linearInterpolation\<close> returns 2.5 and
  \<open>logLinearInterpolation\<close> returns \<open>ln 1.5 / ln 2 * (3 - 2) + 2\<close>, which lies between
  2.584 and 2.586.
\<close>

theorem worked_scenario_75000:
  "bracket_search [[Some 1], [Some 2], [Some 3]]
     [[Some 20000], [Some 50000], [Some 100000]] 1 75000 =
     Inr \<lparr>Iabv = [Some 100000], Aabv = [Some 3], Abel = [Some 2], Ibel = [Some 50000],
          Ieq = [None]\<rparr> \<and>
   fst (linearInterpolation createAxis_ok [[Some 1], [Some 2], [Some 3]]
          [[Some 20000], [Some 50000], [Some 100000]] (Sequence [75000]) g) =
     Inr \<lparr>tv_data = [[Some (5 / 2)]], tv_axis = [75000]\<rparr> \<and>
   fst (logLinearInterpolation createAxis_ok [[Some 1], [Some 2], [Some 3]]
          [[Some 20000], [Some 50000], [Some 100000]] (Sequence [75000]) g) =
     Inr \<lparr>tv_data = [[Some (ln (3 / 2) / ln 2 * (3 - 2) + 2)]], tv_axis = [75000]\<rparr> \<and>
   2584 / 1000 < ln (3 / 2) / ln (2::real) * (3 - 2) + 2 \<and>
   ln (3 / 2) / ln (2::real) * (3 - 2) + 2 < 2586 / 1000"
proof -
  have ws: "well_shaped [[Some 1], [Some 2], [Some 3]]
              [[Some 20000], [Some 50000], [Some 100000]] 1"
    by (simp add: well_shaped_def)
  have ax: "createAxis_ok AutoOff (normalize_levels (Sequence [75000])) = Inr [75000]"
    by (simp add: createAxis_ok_def normalize_levels_def)
  have up: "[1 ..< 3] = [1, 2::nat]"
    by (simp add: upt_conv_Cons)
  have b: "bracket_search [[Some 1], [Some 2], [Some 3]]
     [[Some 20000], [Some 50000], [Some 100000]] 1 75000 =
     Inr \<lparr>Iabv = [Some 100000], Aabv = [Some 3], Abel = [Some 2], Ibel = [Some 50000],
          Ieq = [None]\<rparr>"
    unfolding bracket_search_lift [OF ws]
    by (simp add: lift_def up cell_eval)
  have l: "fst (linearInterpolation createAxis_ok [[Some 1], [Some 2], [Some 3]]
          [[Some 20000], [Some 50000], [Some 100000]] (Sequence [75000]) g) =
     Inr \<lparr>tv_data = [[Some (5 / 2)]], tv_axis = [75000]\<rparr>"
    unfolding linearInterpolation_def
      interpolation_lift [where createAxis = createAxis_ok, OF ws ax]
    by (simp add: normalize_levels_def up cell_eval)
  have g: "fst (logLinearInterpolation createAxis_ok [[Some 1], [Some 2], [Some 3]]
          [[Some 20000], [Some 50000], [Some 100000]] (Sequence [75000]) g) =
     Inr \<lparr>tv_data = [[Some (ln (3 / 2) / ln 2 * (3 - 2) + 2)]], tv_axis = [75000]\<rparr>"
    unfolding logLinearInterpolation_def
      interpolation_lift [where createAxis = createAxis_ok, OF ws ax]
    by (simp add: normalize_levels_def up cell_eval)
  have n: "2584 / 1000 < ln (3 / 2) / ln (2::real) * (3 - 2) + 2 \<and>
           ln (3 / 2) / ln (2::real) * (3 - 2) + 2 < 2586 / 1000"
    using ln_3_2_over_ln_2_bounds by simp
  show ?thesis
    using b l g n by (simp only: simp_thms)
qed

text \<open>
  C7. A single number as \<open>levels\<close> is treated as the list of that one number: each
  function returns, for the number, exactly what it returns for the list, and on arrays
  of equal shape it returns a result of one level.
\<close>

theorem scalar_levels_normalized:
  "linearInterpolation createAxis A Idx (Scalar x) g =
     linearInterpolation createAxis A Idx (Sequence [x]) g \<and>
   logLinearInterpolation createAxis A Idx (Scalar x) g =
     logLinearInterpolation createAxis A Idx (Sequence [x]) g \<and>
   (well_shaped A Idx R \<and> createAxis AutoOff [x] = Inr ax \<longrightarrow>
      (\<exists>t. fst (linearInterpolation createAxis A Idx (Scalar x) g) = Inr t \<and>
           length (tv_data t) = 1 \<and> tv_axis t = ax) \<and>
      (\<exists>t. fst (logLinearInterpolation createAxis A Idx (Scalar x) g) = Inr t \<and>
           length (tv_data t) = 1 \<and> tv_axis t = ax))"
proof (intro conjI impI)
  show "linearInterpolation createAxis A Idx (Scalar x) g =
        linearInterpolation createAxis A Idx (Sequence [x]) g"
    by (simp add: linearInterpolation_def interpolation_def normalize_levels_def)
  show "logLinearInterpolation createAxis A Idx (Scalar x) g =
        logLinearInterpolation createAxis A Idx (Sequence [x]) g"
    by (simp add: logLinearInterpolation_def interpolation_def normalize_levels_def)
next
  assume h: "well_shaped A Idx R \<and> createAxis AutoOff [x] = Inr ax"
  then have ws: "well_shaped A Idx R"
    and ax: "createAxis AutoOff (normalize_levels (Scalar x)) = Inr ax"
    by (simp_all add: normalize_levels_def)
  show "\<exists>t. fst (linearInterpolation createAxis A Idx (Scalar x) g) = Inr t \<and>
           length (tv_data t) = 1 \<and> tv_axis t = ax"
    unfolding linearInterpolation_def
    using ax by (simp add: interpolation_lift [OF ws] normalize_levels_def)
  show "\<exists>t. fst (logLinearInterpolation createAxis A Idx (Scalar x) g) = Inr t \<and>
           length (tv_data t) = 1 \<and> tv_axis t = ax"
    unfolding logLinearInterpolation_def
    using ax by (simp add: interpolation_lift [OF ws] normalize_levels_def)
qed

theorem scalar_levels_normalized_witness:
  "(\<exists>t. fst (linearInterpolation createAxis_ok [[Some 1], [Some 2], [Some 3]]
            [[Some 20000], [Some 50000], [Some 100000]] (Scalar 75000) AutoGrid) = Inr t \<and>
        length (tv_data t) = 1 \<and> tv_axis t = [75000]) \<and>
   (\<exists>t. fst (logLinearInterpolation createAxis_ok [[Some 1], [Some 2], [Some 3]]
            [[Some 20000], [Some 50000], [Some 100000]] (Scalar 75000) AutoGrid) = Inr t \<and>
        length (tv_data t) = 1 \<and> tv_axis t = [75000])"
proof -
  have h: "well_shaped [[Some 1], [Some 2], [Some 3]]
              [[Some 20000], [Some 50000], [Some 100000]] 1 \<and>
           createAxis_ok AutoOff [75000] = Inr [75000]"
    by (simp add: well_shaped_def createAxis_ok_def)
  show ?thesis
    using scalar_levels_normalized [where createAxis = createAxis_ok and g = AutoGrid
        and A = "[[Some 1], [Some 2], [Some 3]]"
        and Idx = "[[Some 20000], [Some 50000], [Some 100000]]" and R = 1 and x = 75000
        and ax = "[75000]"] h
    by blast
qed

text \<open>
  C5 (as amended). Both functions read the setting, switch it off, and build the axis
  with the setting off; when the construction of the axis returns, the setting is put
  back, so that the call leaves the setting as it found it (also when the loop over the
  levels has raised before). Nothing is said of a construction that raises.
\<close>

theorem autobounds_restored_when_axis_built:
  assumes ax: "createAxis AutoOff (normalize_levels levels) = Inr ax"
  shows "snd (linearInterpolation createAxis A Idx levels g) = g \<and>
         snd (logLinearInterpolation createAxis A Idx levels g) = g \<and>
         (\<forall>t. fst (linearInterpolation createAxis A Idx levels g) = Inr t \<longrightarrow> tv_axis t = ax) \<and>
         (\<forall>t. fst (logLinearInterpolation createAxis A Idx levels g) = Inr t \<longrightarrow> tv_axis t = ax)"
  using ax
  by (auto simp: linearInterpolation_def logLinearInterpolation_def interpolation_def
      finish_def Let_def getAutoBounds_def setAutoBounds_def split: sum.splits)

theorem autobounds_restored_when_axis_built_witness:
  "snd (linearInterpolation createAxis_ok [[Some 1]] [[Some 1]] (Sequence [1]) AutoOn) = AutoOn \<and>
   snd (logLinearInterpolation createAxis_ok [[Some 1]] [[Some 1]] (Sequence [1]) AutoOn) = AutoOn \<and>
   fst (linearInterpolation createAxis_ok [[Some 1]] [[Some 1]] (Sequence [1]) AutoOn) =
     Inr \<lparr>tv_data = [[None]], tv_axis = [1]\<rparr>"
proof -
  have ax: "createAxis_ok AutoOff (normalize_levels (Sequence [1])) = Inr [1]"
    by (simp add: createAxis_ok_def normalize_levels_def)
  have ws: "well_shaped [[Some 1]] [[Some 1]] 1"
    by (simp add: well_shaped_def)
  have r: "fst (linearInterpolation createAxis_ok [[Some 1]] [[Some 1]] (Sequence [1]) AutoOn) =
     Inr \<lparr>tv_data = [[None]], tv_axis = [1]\<rparr>"
    unfolding linearInterpolation_def
      interpolation_lift [where createAxis = createAxis_ok, OF ws ax]
    by (simp add: normalize_levels_def cell_eval)
  show ?thesis
    using autobounds_restored_when_axis_built [where createAxis = createAxis_ok
        and A = "[[Some 1]]" and Idx = "[[Some 1]]" and g = AutoOn, OF ax] r
    by simp
qed

theorem autobounds_counterexample:
  "snd (linearInterpolation createAxis_raises [[Some 1]] [[Some 1]] (Sequence [1]) AutoOn) \<noteq> AutoOn \<and>
   snd (logLinearInterpolation createAxis_raises [[Some 1]] [[Some 1]] (Sequence [1]) AutoOn) \<noteq> AutoOn \<and>
   fst (linearInterpolation createAxis_raises [[Some 1]] [[Some 1]] (Sequence [1]) AutoOn) =
     Inl ValueError"
proof -
  have ws: "well_shaped [[Some 1]] [[Some 1]] 1"
    by (simp add: well_shaped_def)
  show ?thesis
    by (simp add: linearInterpolation_def logLinearInterpolation_def interpolation_def
        interp_levels_lift [OF ws] finish_def Let_def createAxis_raises_def
        getAutoBounds_def setAutoBounds_def)
qed

text \<open>
  C8. The round trip loses the top level. With the coordinates 50000, 100000 and the
  field 2, masked, the target levels 50000 and 100000 give a masked cell at both levels:
  the equality of the level with the coordinate of index 0 is never tested, the cell is
  left to the formula, and the formula is masked by the masked neighbour. With one source
  level the loop does not run and the cell is masked as well. On the column 20000, 50000,
  100000 the level 20000 leaves \<open>Ieq\<close> masked: its value comes from the formula.
\<close>

theorem round_trip_top_level_lost:
  "fst (linearInterpolation createAxis_ok [[Some 2], [None]] [[Some 50000], [Some 100000]]
          (Sequence [50000, 100000]) g) =
     Inr \<lparr>tv_data = [[None], [None]], tv_axis = [50000, 100000]\<rparr> \<and>
   fst (logLinearInterpolation createAxis_ok [[Some 2], [None]] [[Some 50000], [Some 100000]]
          (Sequence [50000, 100000]) g) =
     Inr \<lparr>tv_data = [[None], [None]], tv_axis = [50000, 100000]\<rparr> \<and>
   fst (linearInterpolation createAxis_ok [[Some 2]] [[Some 50000]] (Sequence [50000]) g) =
     Inr \<lparr>tv_data = [[None]], tv_axis = [50000]\<rparr> \<and>
   bracket_search [[Some 1], [Some 2], [Some 3]]
     [[Some 20000], [Some 50000], [Some 100000]] 1 20000 =
     Inr \<lparr>Iabv = [Some 50000], Aabv = [Some 2], Abel = [Some 1], Ibel = [Some 20000],
          Ieq = [None]\<rparr>"
proof -
  have ws2: "well_shaped [[Some 2], [None]] [[Some 50000], [Some 100000]] 1"
    by (simp add: well_shaped_def)
  have ws1: "well_shaped [[Some 2]] [[Some 50000]] 1"
    by (simp add: well_shaped_def)
  have ws3: "well_shaped [[Some 1], [Some 2], [Some 3]]
               [[Some 20000], [Some 50000], [Some 100000]] 1"
    by (simp add: well_shaped_def)
  have ax2: "createAxis_ok AutoOff (normalize_levels (Sequence [50000, 100000])) =
             Inr [50000, 100000]"
    by (simp add: createAxis_ok_def normalize_levels_def)
  have ax1: "createAxis_ok AutoOff (normalize_levels (Sequence [50000])) = Inr [50000]"
    by (simp add: createAxis_ok_def normalize_levels_def)
  have up2: "[1 ..< 2] = [1::nat]"
    by (simp add: upt_conv_Cons)
  have up3: "[1 ..< 3] = [1, 2::nat]"
    by (simp add: upt_conv_Cons)
  have a: "fst (linearInterpolation createAxis_ok [[Some 2], [None]]
          [[Some 50000], [Some 100000]] (Sequence [50000, 100000]) g) =
     Inr \<lparr>tv_data = [[None], [None]], tv_axis = [50000, 100000]\<rparr>"
    unfolding linearInterpolation_def
      interpolation_lift [where createAxis = createAxis_ok, OF ws2 ax2]
    by (simp add: normalize_levels_def up2 cell_eval)
  have b: "fst (logLinearInterpolation createAxis_ok [[Some 2], [None]]
          [[Some 50000], [Some 100000]] (Sequence [50000, 100000]) g) =
     Inr \<lparr>tv_data = [[None], [None]], tv_axis = [50000, 100000]\<rparr>"
    unfolding logLinearInterpolation_def
      interpolation_lift [where createAxis = createAxis_ok, OF ws2 ax2]
    by (simp add: normalize_levels_def up2 cell_eval)
  have c: "fst (linearInterpolation createAxis_ok [[Some 2]] [[Some 50000]]
          (Sequence [50000]) g) = Inr \<lparr>tv_data = [[None]], tv_axis = [50000]\<rparr>"
    unfolding linearInterpolation_def
      interpolation_lift [where createAxis = createAxis_ok, OF ws1 ax1]
    by (simp add: normalize_levels_def cell_eval)
  have d: "bracket_search [[Some 1], [Some 2], [Some 3]]
     [[Some 20000], [Some 50000], [Some 100000]] 1 20000 =
     Inr \<lparr>Iabv = [Some 50000], Aabv = [Some 2], Abel = [Some 1], Ibel = [Some 20000],
          Ieq = [None]\<rparr>"
    unfolding bracket_search_lift [OF ws3]
    by (simp add: lift_def up3 cell_eval)
  show ?thesis
    using a b c d by (simp only: simp_thms)
qed





















end
